theory Spec2Isabelle
  imports Complex_Main "HOL-Library.Char_ord" "HOL-Library.List_Lexorder"
begin

section \<open>Data model of the resource allocation agent\<close>

text \<open>
  The types of \<^verbatim>\<open>src/src/ResourceAllocationAgent.ts\<close>. Identifiers, user names and
  messages are strings. A JavaScript \<^verbatim>\<open>number\<close> that holds a quantity or a count is
  an \<open>int\<close>. The fields \<^verbatim>\<open>assignedAt\<close> and \<^verbatim>\<open>requestedAt\<close> are only ever
  written from the clock (\<^verbatim>\<open>new Date().toISOString()\<close>): they are kept as the
  number of milliseconds that string denotes, which is what
  \<^verbatim>\<open>new Date(x).getTime()\<close> reads back from it. The field \<^verbatim>\<open>dueReturnAt\<close>
  comes from the caller and stays a string.
\<close>

datatype ResourceType = Equipment | License | Parking

datatype AssignmentStatus = Active | Returned

record Resource =
  r_id :: string
  r_type :: ResourceType
  r_name :: string
  r_quantity :: int
  r_metadata :: "(string \<times> string) list option"

record Assignment =
  a_id :: string
  a_resourceId :: string
  a_userId :: string
  a_assignedAt :: int
  a_dueReturnAt :: "string option"
  a_status :: AssignmentStatus

record WaitlistEntry =
  w_id :: string
  w_resourceId :: string
  w_userId :: string
  w_requestedAt :: int
  w_priority :: "int option"

record UtilizationLogEntry =
  u_resourceId :: string
  u_date :: string
  u_allocated :: int
  u_total :: int

datatype Role = RoleUser | RoleAssistant

record ConversationMessage =
  c_role :: Role
  c_content :: string

text \<open>
  The two \<^verbatim>\<open>Record<string, ...>\<close> fields are finite maps on the own keys of the
  object, the keys the program has stored. Reading a key that is not stored falls through
  to \<^verbatim>\<open>Object.prototype\<close>; \<open>appendNotification\<close> below is where this matters.
\<close>

record ResourceAllocationState =
  resources :: "Resource list"
  assignments :: "Assignment list"
  waitlist :: "WaitlistEntry list"
  utilizationLog :: "UtilizationLogEntry list"
  notifications :: "string \<rightharpoonup> string list"
  conversationByUser :: "string \<rightharpoonup> ConversationMessage list"

subsection \<open>Constants\<close>

definition REMINDER_HOURS_AHEAD :: int where
  "REMINDER_HOURS_AHEAD = 24"

definition DEFAULT_RESOURCES :: "Resource list" where
  "DEFAULT_RESOURCES =
    [\<lparr>r_id = ''P1'', r_type = Parking, r_name = ''Parking Spot 1'', r_quantity = 1,
       r_metadata = Some [(''location'', ''Lot A'')]\<rparr>,
     \<lparr>r_id = ''P2'', r_type = Parking, r_name = ''Parking Spot 2'', r_quantity = 1,
       r_metadata = Some [(''location'', ''Lot A'')]\<rparr>,
     \<lparr>r_id = ''L1'', r_type = License, r_name = ''Adobe CC'', r_quantity = 5,
       r_metadata = None\<rparr>,
     \<lparr>r_id = ''E1'', r_type = Equipment, r_name = ''Projector'', r_quantity = 2,
       r_metadata = None\<rparr>]"

definition initialState :: ResourceAllocationState where
  "initialState =
    \<lparr>resources = [], assignments = [], waitlist = [], utilizationLog = [],
     notifications = Map.empty, conversationByUser = Map.empty\<rparr>"

subsection \<open>Effects\<close>

text \<open>
  An operation of the agent does two kinds of things besides returning: it replaces the
  agent's state (\<^verbatim>\<open>this.setState(x)\<close>, after which \<^verbatim>\<open>this.state\<close> is \<open>x\<close>;
  \<^verbatim>\<open>handleChat\<close> relies on this when it spreads \<^verbatim>\<open>this.state\<close> after
  \<^verbatim>\<open>requestResource\<close> has returned), and it hands a message to
  \<^verbatim>\<open>notifyViaMcp\<close>, which reads the MCP connections, changes nothing in the
  state and never throws. Each operation returns the list of these effects in the order
  the code performs them, together with its result. The values that the code reads from
  the runtime (\<^verbatim>\<open>generateId()\<close>, the clock) are arguments.
\<close>

datatype effect =
  SetState ResourceAllocationState
| NotifyViaMcp string string

fun applyEffect :: "ResourceAllocationState \<Rightarrow> effect \<Rightarrow> ResourceAllocationState" where
  "applyEffect s (SetState s') = s'"
| "applyEffect s (NotifyViaMcp userId message) = s"

definition stateAfter :: "ResourceAllocationState \<Rightarrow> effect list \<Rightarrow> ResourceAllocationState" where
  "stateAfter s es = foldl applyEffect s es"

datatype error = TypeError

subsection \<open>Helpers\<close>

function decimal :: "nat \<Rightarrow> string" where
  "decimal n =
    (if n < 10 then [char_of (48 + n)]
     else decimal (n div 10) @ [char_of (48 + n mod 10)])"
  by pat_completeness auto
termination
  by (relation "measure id") auto

declare decimal.simps [simp del]

definition seedResourcesIfEmpty :: "ResourceAllocationState \<Rightarrow> effect list" where
  "seedResourcesIfEmpty s =
    (if length (resources s) > 0 then []
     else [SetState (s\<lparr>conversationByUser := conversationByUser s,
                       resources := DEFAULT_RESOURCES\<rparr>)])"

definition activeAssignmentCount :: "ResourceAllocationState \<Rightarrow> string \<Rightarrow> nat" where
  "activeAssignmentCount s resourceId =
    length (filter (\<lambda>a. a_resourceId a = resourceId \<and> a_status a = Active) (assignments s))"

text \<open>
  \<^verbatim>\<open>Array.prototype.sort\<close> is stable, and so is \<open>sort_key\<close>; the comparator is
  the difference of the two request times.
\<close>

definition getNextWaitlistEntry :: "ResourceAllocationState \<Rightarrow> string \<Rightarrow> WaitlistEntry option" where
  "getNextWaitlistEntry s resourceId =
    (case sort_key w_requestedAt (filter (\<lambda>w. w_resourceId w = resourceId) (waitlist s)) of
       [] \<Rightarrow> None
     | w # ws \<Rightarrow> Some w)"

text \<open>
  The notification map is a plain object, so \<^verbatim>\<open>notifications[userId]\<close> on a key
  that is not stored yields the member of \<^verbatim>\<open>Object.prototype\<close> of that name when
  there is one: a function, or the prototype itself for \<^verbatim>\<open>__proto__\<close>. That value
  is not nullish, so \<^verbatim>\<open>?? []\<close> keeps it, and spreading it in
  \<^verbatim>\<open>[...prev, message]\<close> throws a \<^verbatim>\<open>TypeError\<close>, since it is not iterable. The
  names are those of the runtime's \<^verbatim>\<open>Object.prototype\<close>.
\<close>

definition objectPrototypeKeys :: "string list" where
  "objectPrototypeKeys =
    [''constructor'', ''__defineGetter__'', ''__defineSetter__'', ''hasOwnProperty'',
     ''__lookupGetter__'', ''__lookupSetter__'', ''isPrototypeOf'', ''propertyIsEnumerable'',
     ''toString'', ''valueOf'', ''__proto__'', ''toLocaleString'']"

definition appendNotification ::
  "(string \<rightharpoonup> string list) \<Rightarrow> string \<Rightarrow> string \<Rightarrow> error + (string \<rightharpoonup> string list)" where
  "appendNotification notifs userId message =
    (case notifs userId of
       Some prev \<Rightarrow> Inr (notifs(userId \<mapsto> prev @ [message]))
     | None \<Rightarrow>
         if userId \<in> set objectPrototypeKeys then Inl TypeError
         else Inr (notifs(userId \<mapsto> [] @ [message])))"

section \<open>Operations\<close>

subsection \<open>requestResource\<close>

record RequestResult =
  rq_ok :: bool
  rq_message :: string
  rq_assignmentId :: "string option"
  rq_waitlistPosition :: "nat option"

definition requestResource ::
  "ResourceAllocationState \<Rightarrow> string \<Rightarrow> string \<Rightarrow> string option \<Rightarrow> string \<Rightarrow> int
    \<Rightarrow> effect list \<times> RequestResult" where
  "requestResource s resourceId userId dueReturnAt gid now =
    (case find (\<lambda>r. r_id r = resourceId) (resources s) of
       None \<Rightarrow>
         ([], \<lparr>rq_ok = False, rq_message = ''Unknown resource: '' @ resourceId,
               rq_assignmentId = None, rq_waitlistPosition = None\<rparr>)
     | Some resource \<Rightarrow>
         (let used = activeAssignmentCount s resourceId in
          if int used < r_quantity resource then
            (let assignment =
                   \<lparr>a_id = gid, a_resourceId = resourceId, a_userId = userId,
                    a_assignedAt = now, a_dueReturnAt = dueReturnAt, a_status = Active\<rparr>
             in ([SetState (s\<lparr>assignments := assignments s @ [assignment]\<rparr>)],
                 \<lparr>rq_ok = True,
                  rq_message = ''Assigned '' @ r_name resource @ '' to you.'',
                  rq_assignmentId = Some (a_id assignment),
                  rq_waitlistPosition = None\<rparr>))
          else
            (let waitlistEntry =
                   \<lparr>w_id = gid, w_resourceId = resourceId, w_userId = userId,
                    w_requestedAt = now, w_priority = None\<rparr>;
                 s' = s\<lparr>waitlist := waitlist s @ [waitlistEntry]\<rparr>;
                 position = length (filter (\<lambda>w. w_resourceId w = resourceId) (waitlist s')) + 1;
                 waitlistMessage =
                   ''You're #'' @ decimal position @ '' for '' @ r_name resource
                     @ ''. We'll notify you when it's available.''
             in ([SetState s', NotifyViaMcp userId waitlistMessage],
                 \<lparr>rq_ok = False,
                  rq_message =
                    ''No availability. You were added to the waitlist (position ''
                      @ decimal position @ '').'',
                  rq_assignmentId = None,
                  rq_waitlistPosition = Some position\<rparr>))))"

subsection \<open>returnResource\<close>

record ReturnResult =
  rt_ok :: bool
  rt_message :: string
  rt_autoAssigned :: "string option"

text \<open>
  The lookup \<^verbatim>\<open>this.state.resources.find(...)!\<close> in the auto-assignment branch is
  followed by \<^verbatim>\<open>resource.name\<close>; on a resource that is not in the catalog this
  throws while the next state is being built, before any effect. So does
  \<open>appendNotification\<close>, called in the same object literal, when it throws.
\<close>

definition returnResource ::
  "ResourceAllocationState \<Rightarrow> string \<Rightarrow> string \<Rightarrow> string \<Rightarrow> int
    \<Rightarrow> effect list \<times> (error + ReturnResult)" where
  "returnResource s resourceId userId gid now =
    (case find (\<lambda>a. a_resourceId a = resourceId \<and> a_userId a = userId \<and> a_status a = Active)
            (assignments s) of
       None \<Rightarrow>
         ([], Inr \<lparr>rt_ok = False,
                   rt_message = ''No active assignment found for '' @ resourceId @ '' and you.'',
                   rt_autoAssigned = None\<rparr>)
     | Some assignment \<Rightarrow>
         (let assignments' =
                map (\<lambda>a. if a_id a = a_id assignment then a\<lparr>a_status := Returned\<rparr> else a)
                  (assignments s);
              nextState = s\<lparr>assignments := assignments'\<rparr>
          in case getNextWaitlistEntry s resourceId of
               None \<Rightarrow>
                 ([SetState nextState],
                  Inr \<lparr>rt_ok = True, rt_message = ''Returned successfully.'',
                       rt_autoAssigned = None\<rparr>)
             | Some next \<Rightarrow>
                 (case find (\<lambda>r. r_id r = resourceId) (resources s) of
                    None \<Rightarrow> ([], Inl TypeError)
                  | Some resource \<Rightarrow>
                      (let newAssignment =
                             \<lparr>a_id = gid, a_resourceId = resourceId, a_userId = w_userId next,
                              a_assignedAt = now, a_dueReturnAt = None, a_status = Active\<rparr>
                       in case appendNotification (notifications nextState) (w_userId next)
                                 (r_name resource @ '' is now assigned to you.'') of
                            Inl e \<Rightarrow> ([], Inl e)
                          | Inr notifs \<Rightarrow>
                              (let nextState' = nextState
                                     \<lparr>assignments := assignments nextState @ [newAssignment],
                                      waitlist :=
                                        filter (\<lambda>w. w_id w \<noteq> w_id next) (waitlist nextState),
                                      notifications := notifs\<rparr>;
                                   autoAssignedUserId = w_userId next
                               in ([NotifyViaMcp (w_userId next)
                                      (r_name resource @ '' is now assigned to you.''),
                                    SetState nextState'],
                                   Inr \<lparr>rt_ok = True,
                                        rt_message =
                                          (if autoAssignedUserId \<noteq> []
                                           then ''Returned. Next in line (''
                                                  @ autoAssignedUserId
                                                  @ '') was auto-assigned.''
                                           else ''Returned successfully.''),
                                        rt_autoAssigned = Some autoAssignedUserId\<rparr>))))))"

subsection \<open>Queries\<close>

definition listMyAssignments :: "ResourceAllocationState \<Rightarrow> string \<Rightarrow> Assignment list" where
  "listMyAssignments s userId =
    filter (\<lambda>a. a_userId a = userId \<and> a_status a = Active) (assignments s)"

text \<open>Each resource is returned with its computed \<^verbatim>\<open>available\<close> field.\<close>

definition listResources ::
  "ResourceAllocationState \<Rightarrow> ResourceType option \<Rightarrow> (Resource \<times> int) list" where
  "listResources s ty =
    (let list = (case ty of
                   Some t \<Rightarrow> filter (\<lambda>r. r_type r = t) (resources s)
                 | None \<Rightarrow> resources s)
     in map (\<lambda>r. (r, r_quantity r - int (activeAssignmentCount s (r_id r)))) list)"

text \<open>
  The result of \<^verbatim>\<open>e.allocated / e.total\<close> is a JavaScript number: a finite
  binary64 value, an infinity or \<^verbatim>\<open>NaN\<close>. The sign of a zero is not kept.
\<close>

datatype number = Finite rat | PosInfinity | NegInfinity | NaN

function bitLength :: "nat \<Rightarrow> nat" where
  "bitLength n = (if n = 0 then 0 else Suc (bitLength (n div 2)))"
  by pat_completeness auto
termination
  by (relation "measure id") auto

declare bitLength.simps [simp del]

definition pow2 :: "int \<Rightarrow> rat" where
  "pow2 e = (if 0 \<le> e then 2 ^ nat e else 1 / 2 ^ nat (- e))"

definition roundHalfEven :: "rat \<Rightarrow> int" where
  "roundHalfEven m =
    (let f = \<lfloor>m\<rfloor>; r = m - of_int f
     in if r < 1 / 2 then f
        else if 1 / 2 < r then f + 1
        else if even f then f else f + 1)"

text \<open>
  The binary64 value nearest to the quotient of two positive integers, ties to the even
  significand: \<open>e\<close> is the exponent of the quotient, not below that of the subnormal
  range, a significand has 53 bits, and \<open>None\<close> is the overflow to infinity.
\<close>

definition nearestBinary64 :: "nat \<Rightarrow> nat \<Rightarrow> rat option" where
  "nearestBinary64 a b =
    (let q = of_nat a / of_nat b;
         d = int (bitLength a) - int (bitLength b);
         e = max (if pow2 d \<le> q then d else d - 1) (- 1022);
         ulp = pow2 (e - 52);
         m = of_int (roundHalfEven (q / ulp)) * ulp
     in if pow2 1024 \<le> m then None else Some m)"

text \<open>
  The operator \<^verbatim>\<open>/\<close> on two integral numbers. It never throws: a division by zero
  gives an infinity, or \<^verbatim>\<open>NaN\<close> for zero by zero.
\<close>

definition jsDivide :: "int \<Rightarrow> int \<Rightarrow> number" where
  "jsDivide x y =
    (if y = 0 then (if x = 0 then NaN else if 0 < x then PosInfinity else NegInfinity)
     else if x = 0 then Finite 0
     else (case nearestBinary64 (nat \<bar>x\<bar>) (nat \<bar>y\<bar>) of
             None \<Rightarrow> (if (0 < x) = (0 < y) then PosInfinity else NegInfinity)
           | Some m \<Rightarrow> Finite (if (0 < x) = (0 < y) then m else - m)))"

text \<open>
  Date strings are compared as JavaScript compares strings, lexicographically by
  character code. The test \<^verbatim>\<open>!resourceId\<close> holds for a missing and for an empty
  identifier.
\<close>

record UtilizationRow =
  ur_resourceId :: string
  ur_date :: string
  ur_allocated :: int
  ur_total :: int
  ur_utilization :: number

definition getUtilization ::
  "ResourceAllocationState \<Rightarrow> string option \<Rightarrow> string option \<Rightarrow> string option \<Rightarrow> string
    \<Rightarrow> UtilizationRow list" where
  "getUtilization s resourceId dateFrom dateTo today =
    (let from = (case dateFrom of Some d \<Rightarrow> d | None \<Rightarrow> today);
         to = (case dateTo of Some d \<Rightarrow> d | None \<Rightarrow> today);
         entries = filter
                 (\<lambda>e. (case resourceId of
                          None \<Rightarrow> True
                        | Some rid \<Rightarrow> rid = [] \<or> u_resourceId e = rid)
                      \<and> u_date e \<ge> from \<and> u_date e \<le> to)
                 (utilizationLog s)
     in map (\<lambda>e. \<lparr>ur_resourceId = u_resourceId e, ur_date = u_date e,
                   ur_allocated = u_allocated e, ur_total = u_total e,
                   ur_utilization =
                     (if u_total e > 0 then jsDivide (u_allocated e) (u_total e) else Finite 0)\<rparr>)
          entries)"

subsection \<open>clearNotifications\<close>

definition clearNotifications :: "ResourceAllocationState \<Rightarrow> string \<Rightarrow> effect list" where
  "clearNotifications s userId =
    [SetState (s\<lparr>notifications := (notifications s)(userId := None)\<rparr>)]"

subsection \<open>checkReturnReminders\<close>

text \<open>
  The first loop, over the assignments. \<open>parseDate\<close> stands for
  \<^verbatim>\<open>new Date(a.dueReturnAt)\<close>: the time value in milliseconds, or \<open>None\<close> for an
  invalid date, with which both comparisons are false. The loop carries the notification
  map and the notifications handed to \<^verbatim>\<open>notifyViaMcp\<close> so far, and stops where
  \<open>appendNotification\<close> throws.
\<close>

fun reminderLoop ::
  "(string \<Rightarrow> int option) \<Rightarrow> ResourceAllocationState \<Rightarrow> int \<Rightarrow> Assignment list
    \<Rightarrow> (string \<rightharpoonup> string list) \<Rightarrow> effect list
    \<Rightarrow> effect list \<times> (error + (string \<rightharpoonup> string list))" where
  "reminderLoop parseDate s now [] notifs es = (es, Inr notifs)"
| "reminderLoop parseDate s now (a # as) notifs es =
    (case a_dueReturnAt a of
       None \<Rightarrow> reminderLoop parseDate s now as notifs es
     | Some dueReturnAt \<Rightarrow>
         if a_status a \<noteq> Active \<or> dueReturnAt = [] then reminderLoop parseDate s now as notifs es
         else
           (let windowEnd = now + REMINDER_HOURS_AHEAD * 60 * 60 * 1000;
                skip = (case parseDate dueReturnAt of
                          None \<Rightarrow> False
                        | Some due \<Rightarrow> due > windowEnd \<or> due < now)
            in if skip then reminderLoop parseDate s now as notifs es
               else
                 (let msg = ''Reminder: Please return ''
                        @ (case find (\<lambda>r. r_id r = a_resourceId a) (resources s) of
                             Some resource \<Rightarrow> r_name resource
                           | None \<Rightarrow> a_resourceId a)
                        @ '' by '' @ take 10 dueReturnAt @ ''.''
                  in case appendNotification notifs (a_userId a) msg of
                       Inl e \<Rightarrow> (es, Inl e)
                     | Inr notifs' \<Rightarrow>
                         reminderLoop parseDate s now as notifs'
                           (es @ [NotifyViaMcp (a_userId a) msg]))))"

text \<open>The second loop, over the catalog, on the working copy of the utilization log.\<close>

fun snapshotLoop ::
  "ResourceAllocationState \<Rightarrow> string \<Rightarrow> Resource list \<Rightarrow> UtilizationLogEntry list
    \<Rightarrow> UtilizationLogEntry list" where
  "snapshotLoop s date [] ulog = ulog"
| "snapshotLoop s date (r # rs) ulog =
    (let alreadyLogged = list_ex (\<lambda>e. u_resourceId e = r_id r \<and> u_date e = date) ulog
     in if alreadyLogged then snapshotLoop s date rs ulog
        else snapshotLoop s date rs
               (ulog @
                 [\<lparr>u_resourceId = r_id r, u_date = date,
                   u_allocated = int (activeAssignmentCount s (r_id r)),
                   u_total = r_quantity r\<rparr>]))"

text \<open>
  \<open>now\<close> is \<^verbatim>\<open>Date.now()\<close> and \<open>date\<close> is \<^verbatim>\<open>todayDateString()\<close>, two
  separate readings of the clock. An exception in the first loop ends the sweep before
  the second loop and before the only \<^verbatim>\<open>setState\<close>.
\<close>

definition checkReturnReminders ::
  "(string \<Rightarrow> int option) \<Rightarrow> ResourceAllocationState \<Rightarrow> int \<Rightarrow> string
    \<Rightarrow> effect list \<times> (error + unit)" where
  "checkReturnReminders parseDate s now date =
    (case reminderLoop parseDate s now (assignments s) (notifications s) [] of
       (es, Inl e) \<Rightarrow> (es, Inl e)
     | (es, Inr notifs) \<Rightarrow>
         (es @ [SetState (s\<lparr>notifications := notifs,
                            utilizationLog :=
                              snapshotLoop s date (resources s) (utilizationLog s)\<rparr>)],
          Inr ()))"

section \<open>Sequences of operations\<close>

text \<open>
  One constructor per public operation, with the arguments of the call and the values
  read from the runtime during it. The agent runs one operation at a time.
\<close>

datatype operation =
  RequestResource string string "string option" string int
| ReturnResource string string string int
| CheckReturnReminders int string
| ClearNotifications string
| ListMyAssignments string
| ListResources "ResourceType option"
| GetUtilization "string option" "string option" "string option" string

fun effectsOf ::
  "(string \<Rightarrow> int option) \<Rightarrow> ResourceAllocationState \<Rightarrow> operation \<Rightarrow> effect list" where
  "effectsOf parseDate s (RequestResource resourceId userId dueReturnAt gid now) =
     fst (requestResource s resourceId userId dueReturnAt gid now)"
| "effectsOf parseDate s (ReturnResource resourceId userId gid now) =
     fst (returnResource s resourceId userId gid now)"
| "effectsOf parseDate s (CheckReturnReminders now date) =
     fst (checkReturnReminders parseDate s now date)"
| "effectsOf parseDate s (ClearNotifications userId) = clearNotifications s userId"
| "effectsOf parseDate s (ListMyAssignments userId) = []"
| "effectsOf parseDate s (ListResources ty) = []"
| "effectsOf parseDate s (GetUtilization resourceId dateFrom dateTo today) = []"

definition step ::
  "(string \<Rightarrow> int option) \<Rightarrow> ResourceAllocationState \<Rightarrow> operation \<Rightarrow> ResourceAllocationState" where
  "step parseDate s operation = stateAfter s (effectsOf parseDate s operation)"

definition run ::
  "(string \<Rightarrow> int option) \<Rightarrow> ResourceAllocationState \<Rightarrow> operation list
    \<Rightarrow> ResourceAllocationState" where
  "run parseDate s operations = foldl (step parseDate) s operations"

definition seededState :: ResourceAllocationState where
  "seededState = stateAfter initialState (seedResourcesIfEmpty initialState)"

section \<open>Invariants\<close>

definition capacityInvariant :: "ResourceAllocationState \<Rightarrow> bool" where
  "capacityInvariant s \<longleftrightarrow>
     (\<forall>r\<in>set (resources s). int (activeAssignmentCount s (r_id r)) \<le> r_quantity r)"

text \<open>The utilization log holds at most one entry per resource identifier and date.\<close>

definition logInvariant :: "ResourceAllocationState \<Rightarrow> bool" where
  "logInvariant s \<longleftrightarrow>
     (\<forall>rid d. length (filter (\<lambda>e. u_resourceId e = rid \<and> u_date e = d) (utilizationLog s)) \<le> 1)"

section \<open>Example states\<close>

text \<open>
  States reached from the seeded state: alice holds the only unit of \<open>P1\<close>; then bob
  has asked for it too; or bob and carol have, with the clock set back in between, so
  that carol's request carries the earlier time.
\<close>

definition aliceHoldsP1 :: ResourceAllocationState where
  "aliceHoldsP1 =
    run (\<lambda>d. None) seededState [RequestResource ''P1'' ''alice'' None ''id1'' 1000]"

definition bobWaitsForP1 :: ResourceAllocationState where
  "bobWaitsForP1 =
    run (\<lambda>d. None) seededState
      [RequestResource ''P1'' ''alice'' None ''id1'' 1000,
       RequestResource ''P1'' ''bob'' None ''id2'' 2000]"

definition carolBeforeBob :: ResourceAllocationState where
  "carolBeforeBob =
    run (\<lambda>d. None) seededState
      [RequestResource ''P1'' ''alice'' None ''id1'' 1000,
       RequestResource ''P1'' ''bob'' None ''id2'' 3000,
       RequestResource ''P1'' ''carol'' None ''id3'' 2000]"

text \<open>
  A user named \<^verbatim>\<open>constructor\<close> holds \<open>P1\<close>, due on 5 January 2026 at noon
  (UTC); \<open>dueTimes\<close> reads that one date, as \<^verbatim>\<open>new Date\<close> does.
\<close>

definition dueTimes :: "string \<Rightarrow> int option" where
  "dueTimes d = (if d = ''2026-01-05T12:00:00.000Z'' then Some 1767614400000 else None)"

definition constructorHoldsP1 :: ResourceAllocationState where
  "constructorHoldsP1 =
    run dueTimes seededState
      [RequestResource ''P1'' ''constructor'' (Some ''2026-01-05T12:00:00.000Z'') ''id1''
         1767500000000]"

text \<open>
  A utilization log with a half-used resource, an entry whose total is zero, and a
  resource used to a third.
\<close>

definition sampleLogState :: ResourceAllocationState where
  "sampleLogState =
    initialState
      \<lparr>utilizationLog :=
         [\<lparr>u_resourceId = ''E1'', u_date = ''2026-01-05'', u_allocated = 1, u_total = 2\<rparr>,
          \<lparr>u_resourceId = ''Z9'', u_date = ''2026-01-05'', u_allocated = 0, u_total = 0\<rparr>,
          \<lparr>u_resourceId = ''L1'', u_date = ''2026-01-05'', u_allocated = 1, u_total = 3\<rparr>,
          \<lparr>u_resourceId = ''E1'', u_date = ''2026-01-06'', u_allocated = 2, u_total = 2\<rparr>]\<rparr>"

lemmas example_defs =
  aliceHoldsP1_def bobWaitsForP1_def carolBeforeBob_def run_def step_def seededState_def stateAfter_def
  seedResourcesIfEmpty_def initialState_def DEFAULT_RESOURCES_def requestResource_def
  returnResource_def checkReturnReminders_def activeAssignmentCount_def
  getNextWaitlistEntry_def appendNotification_def objectPrototypeKeys_def Let_def

section \<open>Basic facts\<close>

lemma stateAfter_Nil [simp]: "stateAfter s [] = s"
  by (simp add: stateAfter_def)

lemma stateAfter_Cons [simp]: "stateAfter s (e # es) = stateAfter (applyEffect s e) es"
  by (simp add: stateAfter_def)

lemma stateAfter_append [simp]: "stateAfter s (es @ es') = stateAfter (stateAfter s es) es'"
  by (simp add: stateAfter_def)

lemma find_None_iff_all: "find P xs = None \<longleftrightarrow> (\<forall>x\<in>set xs. \<not> P x)"
  by (induction xs) auto

lemma find_SomeD: "find P xs = Some x \<Longrightarrow> x \<in> set xs \<and> P x"
  by (induction xs) (auto split: if_splits)

lemma reminderLoop_state:
  "stateAfter s (fst (reminderLoop parseDate s0 now as notifs es)) = stateAfter s es"
  by (induction parseDate s0 now as notifs es rule: reminderLoop.induct)
     (auto simp: Let_def split: option.splits sum.splits)

lemma checkReturnReminders_thrown:
  assumes "snd (checkReturnReminders parseDate s now date) = Inl e"
  shows "stateAfter s (fst (checkReturnReminders parseDate s now date)) = s"
proof -
  obtain es r where loop:
    "reminderLoop parseDate s now (assignments s) (notifications s) [] = (es, r)"
    by (cases "reminderLoop parseDate s now (assignments s) (notifications s) []")
  with assms obtain e' where "r = Inl e'"
    by (cases r) (simp_all add: checkReturnReminders_def)
  with loop have "fst (checkReturnReminders parseDate s now date) = es"
    by (simp add: checkReturnReminders_def)
  moreover have "stateAfter s es = s"
    using reminderLoop_state [of s parseDate s now "assignments s" "notifications s" "[]"] loop
    by simp
  ultimately show ?thesis by simp
qed

lemma checkReturnReminders_completed:
  assumes "snd (checkReturnReminders parseDate s now date) = Inr u"
  shows "\<exists>notifs. stateAfter s (fst (checkReturnReminders parseDate s now date)) =
           s\<lparr>notifications := notifs,
             utilizationLog := snapshotLoop s date (resources s) (utilizationLog s)\<rparr>"
proof -
  obtain es r where loop:
    "reminderLoop parseDate s now (assignments s) (notifications s) [] = (es, r)"
    by (cases "reminderLoop parseDate s now (assignments s) (notifications s) []")
  with assms obtain notifs where "r = Inr notifs"
    by (cases r) (simp_all add: checkReturnReminders_def)
  with loop have "stateAfter s (fst (checkReturnReminders parseDate s now date)) =
           s\<lparr>notifications := notifs,
             utilizationLog := snapshotLoop s date (resources s) (utilizationLog s)\<rparr>"
    by (simp add: checkReturnReminders_def)
  then show ?thesis by blast
qed

lemma checkReturnReminders_cases:
  "stateAfter s (fst (checkReturnReminders parseDate s now date)) = s
   \<or> (\<exists>notifs. stateAfter s (fst (checkReturnReminders parseDate s now date)) =
           s\<lparr>notifications := notifs,
             utilizationLog := snapshotLoop s date (resources s) (utilizationLog s)\<rparr>)"
proof (cases "snd (checkReturnReminders parseDate s now date)")
  case (Inl e)
  then show ?thesis by (simp add: checkReturnReminders_thrown)
next
  case (Inr u)
  then show ?thesis using checkReturnReminders_completed by blast
qed

lemma checkReturnReminders_resources:
  "resources (stateAfter s (fst (checkReturnReminders parseDate s now date))) = resources s"
  using checkReturnReminders_cases [of s parseDate now date] by auto

lemma checkReturnReminders_assignments:
  "assignments (stateAfter s (fst (checkReturnReminders parseDate s now date))) = assignments s"
  using checkReturnReminders_cases [of s parseDate now date] by auto

lemma requestResource_resources:
  "resources (stateAfter s (fst (requestResource s resourceId userId dueReturnAt gid now)))
     = resources s"
  by (simp add: requestResource_def stateAfter_def Let_def split: option.splits)

lemma returnResource_resources:
  "resources (stateAfter s (fst (returnResource s resourceId userId gid now))) = resources s"
  by (simp add: returnResource_def stateAfter_def Let_def split: option.splits sum.splits)

section \<open>Failure results\<close>

text \<open>
  C10. A request for an identifier that no resource of the catalog carries returns the
  failure result \<^verbatim>\<open>Unknown resource: <id>\<close> and has no effect at all: the state is
  not replaced (no assignment, no waitlist entry, no stored notification) and nothing is
  handed to \<^verbatim>\<open>notifyViaMcp\<close>.
\<close>

theorem requestResource_unknown_resource:
  assumes "resourceId \<notin> r_id ` set (resources s)"
  shows "requestResource s resourceId userId dueReturnAt gid now =
           ([], \<lparr>rq_ok = False, rq_message = ''Unknown resource: '' @ resourceId,
                 rq_assignmentId = None, rq_waitlistPosition = None\<rparr>)
         \<and> stateAfter s (fst (requestResource s resourceId userId dueReturnAt gid now)) = s"
proof -
  have "find (\<lambda>r. r_id r = resourceId) (resources s) = None"
    using assms by (auto simp: find_None_iff_all)
  then show ?thesis
    by (simp add: requestResource_def stateAfter_def)
qed

theorem requestResource_unknown_resource_witness:
  "''X'' \<notin> r_id ` set (resources aliceHoldsP1)
   \<and> requestResource aliceHoldsP1 ''X'' ''alice'' None ''id9'' 9000 =
       ([], \<lparr>rq_ok = False, rq_message = ''Unknown resource: X'',
             rq_assignmentId = None, rq_waitlistPosition = None\<rparr>)"
proof -
  have h: "''X'' \<notin> r_id ` set (resources aliceHoldsP1)"
    by (simp add: example_defs)
  show ?thesis
    using h requestResource_unknown_resource [OF h, of "''alice''" None "''id9''" 9000]
    by simp
qed

text \<open>
  C6. A return by a user who holds no active assignment of the resource gives the
  failure result \<^verbatim>\<open>No active assignment found for <id> and you.\<close> as a value, not
  as an exception, and has no effect: assignments, waitlist, utilization log and
  notifications are what they were.
\<close>

theorem returnResource_no_active_assignment:
  assumes "\<forall>a\<in>set (assignments s).
             \<not> (a_resourceId a = resourceId \<and> a_userId a = userId \<and> a_status a = Active)"
  shows "returnResource s resourceId userId gid now =
           ([], Inr \<lparr>rt_ok = False,
                     rt_message = ''No active assignment found for '' @ resourceId @ '' and you.'',
                     rt_autoAssigned = None\<rparr>)
         \<and> stateAfter s (fst (returnResource s resourceId userId gid now)) = s"
proof -
  have "find (\<lambda>a. a_resourceId a = resourceId \<and> a_userId a = userId \<and> a_status a = Active)
          (assignments s) = None"
    using assms by (simp add: find_None_iff_all)
  then show ?thesis
    by (simp add: returnResource_def stateAfter_def)
qed

theorem returnResource_no_active_assignment_witness:
  "filter (\<lambda>a. a_resourceId a = ''P1'' \<and> a_userId a = ''bob'' \<and> a_status a = Active)
     (assignments bobWaitsForP1) = []
   \<and> returnResource bobWaitsForP1 ''P1'' ''bob'' ''id9'' 9000 =
       ([], Inr \<lparr>rt_ok = False,
                 rt_message = ''No active assignment found for P1 and you.'',
                 rt_autoAssigned = None\<rparr>)
   \<and> stateAfter bobWaitsForP1 (fst (returnResource bobWaitsForP1 ''P1'' ''bob'' ''id9'' 9000))
       = bobWaitsForP1"
proof -
  have h: "\<forall>a\<in>set (assignments bobWaitsForP1).
      \<not> (a_resourceId a = ''P1'' \<and> a_userId a = ''bob'' \<and> a_status a = Active)"
    by (simp add: example_defs)
  have "filter (\<lambda>a. a_resourceId a = ''P1'' \<and> a_userId a = ''bob'' \<and> a_status a = Active)
     (assignments bobWaitsForP1) = []"
    using h by (simp add: filter_empty_conv)
  then show ?thesis
    using returnResource_no_active_assignment [OF h, of "''id9''" 9000]
    by (simp add: stateAfter_def)
qed

section \<open>The waitlist position\<close>

text \<open>
  C1. The position returned to a queued requester should be the 1-based rank of the new
  entry, so 1 on an empty waitlist. The code counts the entries of \<^verbatim>\<open>this.state\<close>
  after \<^verbatim>\<open>setState\<close> has stored the new entry and then adds one: with alice holding
  the only unit of \<open>P1\<close> and nobody waiting, bob is told position 2.
\<close>

theorem requestResource_first_waiter_position:
  "waitlist aliceHoldsP1 = []
   \<and> activeAssignmentCount aliceHoldsP1 ''P1'' = 1
   \<and> rq_waitlistPosition
        (snd (requestResource aliceHoldsP1 ''P1'' ''bob'' None ''id2'' 2000)) = Some 2"
  by (simp add: example_defs)

text \<open>The same holds in every state: the returned position is the number of entries
  for the resource before the call, plus two.\<close>

lemma requestResource_position:
  assumes "find (\<lambda>r. r_id r = resourceId) (resources s) = Some resource"
    and "\<not> int (activeAssignmentCount s resourceId) < r_quantity resource"
  shows "rq_waitlistPosition (snd (requestResource s resourceId userId dueReturnAt gid now))
           = Some (length (filter (\<lambda>w. w_resourceId w = resourceId) (waitlist s)) + 2)"
  using assms by (simp add: requestResource_def Let_def)

section \<open>Order of the state change and the notification\<close>

text \<open>
  C5. In the auto-assignment branch of \<^verbatim>\<open>returnResource\<close> the notification is
  handed to \<^verbatim>\<open>notifyViaMcp\<close> first and the new state is stored after it: when alice
  returns \<open>P1\<close> while bob waits, the effects are the notification to bob followed by the
  \<^verbatim>\<open>setState\<close> that yields the final state. (The waitlist branch of
  \<^verbatim>\<open>requestResource\<close> stores the state first.)
\<close>

theorem returnResource_notifies_before_setState:
  "fst (returnResource bobWaitsForP1 ''P1'' ''alice'' ''id3'' 3000) =
     [NotifyViaMcp ''bob'' ''Parking Spot 1 is now assigned to you.'',
      SetState (stateAfter bobWaitsForP1
                  (fst (returnResource bobWaitsForP1 ''P1'' ''alice'' ''id3'' 3000)))]"
  by (simp add: example_defs)

text \<open>
  The waitlist branch of \<^verbatim>\<open>requestResource\<close>, in every state: the state with the
  new entry is stored first and the requester is notified after it.
\<close>

lemma requestResource_stores_before_notifying:
  assumes "find (\<lambda>r. r_id r = resourceId) (resources s) = Some resource"
    and "\<not> int (activeAssignmentCount s resourceId) < r_quantity resource"
  shows "\<exists>message.
           fst (requestResource s resourceId userId dueReturnAt gid now) =
             [SetState (stateAfter s (fst (requestResource s resourceId userId dueReturnAt gid now))),
              NotifyViaMcp userId message]"
  using assms by (simp add: requestResource_def Let_def)

section \<open>No deduplication per user\<close>

text \<open>
  C9. When the catalog gives a resource the quantity 1 and a user already holds it, a
  second request by the same user is neither granted nor rejected as an unknown
  resource: the only change of the state is a new waitlist entry for that user, the
  assignments stay as they are, and the result carries a waitlist position and no
  assignment id.
\<close>

theorem requestResource_same_user_queues:
  assumes cat: "find (\<lambda>r. r_id r = resourceId) (resources s) = Some resource"
    and one: "r_quantity resource = 1"
    and held: "\<exists>a\<in>set (assignments s).
                 a_resourceId a = resourceId \<and> a_userId a = userId \<and> a_status a = Active"
  shows "rq_assignmentId (snd (requestResource s resourceId userId dueReturnAt gid now)) = None
       \<and> rq_waitlistPosition (snd (requestResource s resourceId userId dueReturnAt gid now))
           \<noteq> None
       \<and> rq_message (snd (requestResource s resourceId userId dueReturnAt gid now))
           \<noteq> ''Unknown resource: '' @ resourceId
       \<and> stateAfter s (fst (requestResource s resourceId userId dueReturnAt gid now))
           = s\<lparr>waitlist := waitlist s @
                 [\<lparr>w_id = gid, w_resourceId = resourceId, w_userId = userId,
                   w_requestedAt = now, w_priority = None\<rparr>]\<rparr>"
proof -
  from held obtain a where "a \<in> set (assignments s)"
    "a_resourceId a = resourceId \<and> a_status a = Active" by blast
  then have "filter (\<lambda>a. a_resourceId a = resourceId \<and> a_status a = Active) (assignments s) \<noteq> []"
    by (auto simp: filter_empty_conv)
  then have "activeAssignmentCount s resourceId \<ge> 1"
    unfolding activeAssignmentCount_def
    by (cases "filter (\<lambda>a. a_resourceId a = resourceId \<and> a_status a = Active) (assignments s)")
       auto
  then have full: "\<not> int (activeAssignmentCount s resourceId) < r_quantity resource"
    using one by simp
  show ?thesis
    using cat full by (simp add: requestResource_def Let_def)
qed

theorem requestResource_same_user_queues_witness:
  "find (\<lambda>r. r_id r = ''P1'') (resources aliceHoldsP1) = Some 
       \<lparr>r_id = ''P1'', r_type = Parking, r_name = ''Parking Spot 1'', r_quantity = 1, r_metadata = Some [(''location'', ''Lot A'')]\<rparr>
   \<and> (\<exists>a\<in>set (assignments aliceHoldsP1).
         a_resourceId a = ''P1'' \<and> a_userId a = ''alice'' \<and> a_status a = Active)
   \<and> rq_waitlistPosition
        (snd (requestResource aliceHoldsP1 ''P1'' ''alice'' None ''id2'' 2000)) \<noteq> None
   \<and> stateAfter aliceHoldsP1 (fst (requestResource aliceHoldsP1 ''P1'' ''alice'' None ''id2'' 2000))
       = aliceHoldsP1\<lparr>waitlist := waitlist aliceHoldsP1 @
           [\<lparr>w_id = ''id2'', w_resourceId = ''P1'', w_userId = ''alice'',
             w_requestedAt = 2000, w_priority = None\<rparr>]\<rparr>"
proof -
  have cat: "find (\<lambda>r. r_id r = ''P1'') (resources aliceHoldsP1) = Some 
       \<lparr>r_id = ''P1'', r_type = Parking, r_name = ''Parking Spot 1'', r_quantity = 1, r_metadata = Some [(''location'', ''Lot A'')]\<rparr>"
    by (simp add: example_defs)
  have one: "r_quantity 
       \<lparr>r_id = ''P1'', r_type = Parking, r_name = ''Parking Spot 1'', r_quantity = 1, r_metadata = Some [(''location'', ''Lot A'')]\<rparr> = 1"
    by simp
  have held: "\<exists>a\<in>set (assignments aliceHoldsP1).
         a_resourceId a = ''P1'' \<and> a_userId a = ''alice'' \<and> a_status a = Active"
    by (simp add: example_defs)
  show ?thesis
    using cat held
      requestResource_same_user_queues [OF cat one held, of None "''id2''" 2000]
    by blast
qed

section \<open>Capacity\<close>

lemma active_after_flip_le:
  "length (filter (\<lambda>a. a_resourceId a = rid \<and> a_status a = Active)
            (map (\<lambda>a. if a_id a = i then a\<lparr>a_status := Returned\<rparr> else a) as))
     \<le> length (filter (\<lambda>a. a_resourceId a = rid \<and> a_status a = Active) as)"
  by (induction as) auto

lemma active_after_flip_less:
  "x \<in> set as \<Longrightarrow> a_id x = i \<Longrightarrow> a_resourceId x = rid \<Longrightarrow> a_status x = Active \<Longrightarrow>
   length (filter (\<lambda>a. a_resourceId a = rid \<and> a_status a = Active)
            (map (\<lambda>a. if a_id a = i then a\<lparr>a_status := Returned\<rparr> else a) as))
     < length (filter (\<lambda>a. a_resourceId a = rid \<and> a_status a = Active) as)"
proof (induction as)
  case Nil
  then show ?case by simp
next
  case (Cons a as)
  show ?case
  proof (cases "x = a")
    case True
    then show ?thesis
      using Cons.prems active_after_flip_le [of rid i as] by (auto simp: less_Suc_eq_le)
  next
    case False
    then have "x \<in> set as" using Cons.prems by simp
    from Cons.IH [OF this Cons.prems(2-4)] show ?thesis by auto
  qed
qed

lemma returnResource_count_le:
  "activeAssignmentCount (stateAfter s (fst (returnResource s resourceId userId gid now))) rid
     \<le> activeAssignmentCount s rid"
proof (cases "find (\<lambda>a. a_resourceId a = resourceId \<and> a_userId a = userId \<and> a_status a = Active)
                (assignments s)")
  case None
  then show ?thesis by (simp add: returnResource_def)
next
  case (Some x)
  from find_SomeD [OF Some] have x: "x \<in> set (assignments s)" "a_resourceId x = resourceId"
    "a_status x = Active" by simp_all
  have le: "length (filter (\<lambda>a. a_resourceId a = rid \<and> a_status a = Active)
            (map (\<lambda>a. if a_id a = a_id x then a\<lparr>a_status := Returned\<rparr> else a) (assignments s)))
     \<le> activeAssignmentCount s rid"
    unfolding activeAssignmentCount_def by (rule active_after_flip_le)
  have less: "length (filter (\<lambda>a. a_resourceId a = resourceId \<and> a_status a = Active)
            (map (\<lambda>a. if a_id a = a_id x then a\<lparr>a_status := Returned\<rparr> else a) (assignments s)))
     < activeAssignmentCount s resourceId"
    unfolding activeAssignmentCount_def using x by (intro active_after_flip_less [of x]) simp_all
  show ?thesis
    using Some le less
    by (auto simp: returnResource_def Let_def activeAssignmentCount_def
          split: option.splits sum.splits)
qed

lemma same_id_same_resource:
  "distinct (map r_id rs) \<Longrightarrow> r \<in> set rs \<Longrightarrow> r' \<in> set rs \<Longrightarrow> r_id r = r_id r' \<Longrightarrow> r = r'"
  by (meson distinct_map inj_on_def)

lemma requestResource_capacity:
  assumes d: "distinct (map r_id (resources s))" and inv: "capacityInvariant s"
  shows "capacityInvariant (stateAfter s (fst (requestResource s resourceId userId dueReturnAt gid now)))"
proof (cases "find (\<lambda>r. r_id r = resourceId) (resources s)")
  case None
  then show ?thesis using inv by (simp add: requestResource_def)
next
  case (Some resource)
  from find_SomeD [OF Some] have res: "resource \<in> set (resources s)" "r_id resource = resourceId"
    by simp_all
  show ?thesis
  proof (cases "int (activeAssignmentCount s resourceId) < r_quantity resource")
    case False
    then show ?thesis
      using Some inv
      by (simp add: requestResource_def Let_def capacityInvariant_def activeAssignmentCount_def)
  next
    case True
    have "\<forall>r\<in>set (resources s). r_id r = resourceId \<longrightarrow> r = resource"
      using same_id_same_resource [OF d _ res(1)] res(2) by auto
    then show ?thesis
      using Some True inv
      by (auto simp: requestResource_def Let_def capacityInvariant_def activeAssignmentCount_def)
  qed
qed

lemma step_resources: "resources (step parseDate s operation) = resources s"
  by (cases operation)
     (simp_all add: step_def requestResource_resources returnResource_resources
        checkReturnReminders_resources clearNotifications_def)

lemma step_capacity:
  assumes d: "distinct (map r_id (resources s))" and inv: "capacityInvariant s"
  shows "capacityInvariant (step parseDate s operation)"
proof (cases operation)
  case (RequestResource resourceId userId dueReturnAt gid now)
  then show ?thesis using requestResource_capacity [OF d inv] by (simp add: step_def)
next
  case (ReturnResource resourceId userId gid now)
  have "\<forall>r\<in>set (resources s).
      int (activeAssignmentCount (stateAfter s (fst (returnResource s resourceId userId gid now))) (r_id r))
        \<le> r_quantity r"
  proof
    fix r assume "r \<in> set (resources s)"
    then have "int (activeAssignmentCount s (r_id r)) \<le> r_quantity r"
      using inv by (simp add: capacityInvariant_def)
    with returnResource_count_le [of s resourceId userId gid now "r_id r"]
    show "int (activeAssignmentCount (stateAfter s (fst (returnResource s resourceId userId gid now))) (r_id r))
        \<le> r_quantity r" by linarith
  qed
  then show ?thesis
    using ReturnResource by (simp add: step_def capacityInvariant_def returnResource_resources)
next
  case (CheckReturnReminders now date)
  then show ?thesis
    using inv
    by (simp add: step_def capacityInvariant_def activeAssignmentCount_def
          checkReturnReminders_resources checkReturnReminders_assignments)
next
  case (ClearNotifications userId)
  then show ?thesis
    using inv
    by (simp add: step_def capacityInvariant_def activeAssignmentCount_def clearNotifications_def)
qed (use inv in \<open>simp_all add: step_def\<close>)

lemma run_resources: "resources (run parseDate s operations) = resources s"
proof (induction operations arbitrary: s)
  case Nil
  then show ?case by (simp add: run_def)
next
  case (Cons operation operations)
  have "run parseDate s (operation # operations)
      = run parseDate (step parseDate s operation) operations"
    by (simp add: run_def)
  then show ?case by (simp add: Cons.IH step_resources)
qed

lemma run_capacity:
  "distinct (map r_id (resources s)) \<Longrightarrow> capacityInvariant s \<Longrightarrow>
     capacityInvariant (run parseDate s operations)"
proof (induction operations arbitrary: s)
  case Nil
  then show ?case by (simp add: run_def)
next
  case (Cons operation operations)
  have "distinct (map r_id (resources (step parseDate s operation)))"
    using Cons.prems(1) by (simp add: step_resources)
  moreover have "capacityInvariant (step parseDate s operation)"
    using Cons.prems by (rule step_capacity)
  ultimately have "capacityInvariant (run parseDate (step parseDate s operation) operations)"
    by (rule Cons.IH)
  then show ?case by (simp add: run_def)
qed

text \<open>
  C2. In every state reached from the seeded state by any sequence of requests,
  returns, reminder sweeps, clearings of notifications and queries, no resource of the
  catalog has more active assignments than its quantity.
\<close>

theorem capacity_never_exceeded:
  "\<forall>r\<in>set (resources (run parseDate seededState operations)).
     int (activeAssignmentCount (run parseDate seededState operations) (r_id r)) \<le> r_quantity r"
proof -
  have "distinct (map r_id (resources seededState))"
    by (simp add: seededState_def seedResourcesIfEmpty_def initialState_def DEFAULT_RESOURCES_def)
  moreover have "capacityInvariant seededState"
    by (simp add: capacityInvariant_def activeAssignmentCount_def seededState_def
          seedResourcesIfEmpty_def initialState_def DEFAULT_RESOURCES_def)
  ultimately have "capacityInvariant (run parseDate seededState operations)"
    by (rule run_capacity)
  then show ?thesis by (simp add: capacityInvariant_def)
qed

theorem capacity_never_exceeded_witness:
  "\<lparr>r_id = ''P1'', r_type = Parking, r_name = ''Parking Spot 1'', r_quantity = 1, r_metadata = Some [(''location'', ''Lot A'')]\<rparr>
     \<in> set (resources (run (\<lambda>d. None) seededState
                [RequestResource ''P1'' ''alice'' None ''id1'' 1000,
                 RequestResource ''P1'' ''bob'' None ''id2'' 2000,
                 ReturnResource ''P1'' ''alice'' ''id3'' 3000]))
   \<and> int (activeAssignmentCount
            (run (\<lambda>d. None) seededState
               [RequestResource ''P1'' ''alice'' None ''id1'' 1000,
                RequestResource ''P1'' ''bob'' None ''id2'' 2000,
                ReturnResource ''P1'' ''alice'' ''id3'' 3000]) ''P1'') \<le> 1"
proof -
  have mem: "\<lparr>r_id = ''P1'', r_type = Parking, r_name = ''Parking Spot 1'', r_quantity = 1, r_metadata = Some [(''location'', ''Lot A'')]\<rparr>
     \<in> set (resources (run (\<lambda>d. None) seededState
                [RequestResource ''P1'' ''alice'' None ''id1'' 1000,
                 RequestResource ''P1'' ''bob'' None ''id2'' 2000,
                 ReturnResource ''P1'' ''alice'' ''id3'' 3000]))"
    by (simp add: run_resources seededState_def seedResourcesIfEmpty_def initialState_def
          DEFAULT_RESOURCES_def)
  from capacity_never_exceeded [THEN bspec, OF mem] mem show ?thesis
    by simp
qed

section \<open>Promotion from the waitlist\<close>

lemma sort_key_head_least:
  assumes "sort_key f xs = w # ws"
  shows "w \<in> set xs \<and> (\<forall>x\<in>set xs. f w \<le> f x)"
proof -
  have "set (sort_key f xs) = set xs" by simp
  with assms have mem: "w \<in> set xs" and sub: "set xs = insert w (set ws)" by auto
  have "sorted (map f (sort_key f xs))" by (rule sorted_sort_key)
  with assms have "\<forall>x\<in>set ws. f w \<le> f x" by simp
  with sub mem show ?thesis by auto
qed

lemma getNextWaitlistEntry_Some:
  assumes "getNextWaitlistEntry s resourceId = Some nxt"
  shows "nxt \<in> set (waitlist s) \<and> w_resourceId nxt = resourceId
       \<and> (\<forall>w\<in>set (waitlist s). w_resourceId w = resourceId \<longrightarrow> w_requestedAt nxt \<le> w_requestedAt w)"
proof -
  from assms obtain ws where
    "sort_key w_requestedAt (filter (\<lambda>w. w_resourceId w = resourceId) (waitlist s)) = nxt # ws"
    by (auto simp: getNextWaitlistEntry_def split: list.splits)
  from sort_key_head_least [OF this] show ?thesis by auto
qed

lemma getNextWaitlistEntry_None:
  "getNextWaitlistEntry s resourceId = None \<longleftrightarrow> (\<forall>w\<in>set (waitlist s). w_resourceId w \<noteq> resourceId)"
proof -
  have "sort_key w_requestedAt (filter (\<lambda>w. w_resourceId w = resourceId) (waitlist s)) = []
      \<longleftrightarrow> filter (\<lambda>w. w_resourceId w = resourceId) (waitlist s) = []"
    by (metis length_sort length_0_conv)
  then show ?thesis
    by (auto simp: getNextWaitlistEntry_def filter_empty_conv split: list.splits)
qed

lemma filter_other_ids_remove1:
  "distinct (map w_id ws) \<Longrightarrow> x \<in> set ws \<Longrightarrow>
     filter (\<lambda>w. w_id w \<noteq> w_id x) ws = remove1 x ws"
proof (induction ws)
  case Nil
  then show ?case by simp
next
  case (Cons w ws)
  show ?case
  proof (cases "w = x")
    case True
    then have "w_id x \<notin> w_id ` set ws" using Cons.prems(1) by simp
    then have "\<forall>v\<in>set ws. w_id v \<noteq> w_id x" by (metis imageI)
    then have "filter (\<lambda>w. w_id w \<noteq> w_id x) ws = ws" by (simp add: filter_id_conv)
    with True show ?thesis by simp
  next
    case False
    then have x: "x \<in> set ws" using Cons.prems(2) by simp
    then have "w_id w \<noteq> w_id x" using Cons.prems(1) by auto
    moreover have "filter (\<lambda>w. w_id w \<noteq> w_id x) ws = remove1 x ws"
      using Cons.IH Cons.prems(1) x by simp
    ultimately show ?thesis using False by simp
  qed
qed

lemma distinct_map_insort_key:
  "distinct (map g (insort_key f x xs)) \<longleftrightarrow> distinct (map g (x # xs))"
  by (induction xs) (auto simp: set_insort_key)

lemma distinct_map_sort_key:
  "distinct (map g (sort_key f xs)) \<longleftrightarrow> distinct (map g xs)"
  by (induction xs) (simp_all add: distinct_map_insort_key)

lemma queue_after_removal:
  assumes ids: "distinct (map w_id ws)"
    and sorted: "sort_key w_requestedAt (filter R ws) = nxt # rest"
  shows "sort_key w_requestedAt (filter R (filter (\<lambda>w. w_id w \<noteq> w_id nxt) ws)) = rest"
proof -
  have "distinct (map w_id (filter R ws))"
    using ids by (rule distinct_map_filter)
  then have "distinct (map w_id (nxt # rest))"
    using sorted distinct_map_sort_key [of w_id w_requestedAt "filter R ws"] by simp
  then have "w_id nxt \<notin> w_id ` set rest" by simp
  then have others: "\<forall>w\<in>set rest. w_id w \<noteq> w_id nxt" by (metis imageI)
  have "filter R (filter (\<lambda>w. w_id w \<noteq> w_id nxt) ws)
      = filter (\<lambda>w. w_id w \<noteq> w_id nxt) (filter R ws)"
    by (simp add: conj_commute)
  then have "sort_key w_requestedAt (filter R (filter (\<lambda>w. w_id w \<noteq> w_id nxt) ws))
      = filter (\<lambda>w. w_id w \<noteq> w_id nxt) (sort_key w_requestedAt (filter R ws))"
    by (simp add: filter_sort)
  also have "\<dots> = filter (\<lambda>w. w_id w \<noteq> w_id nxt) rest"
    by (simp add: sorted)
  also have "\<dots> = rest"
    using others by (simp add: filter_id_conv)
  finally show ?thesis .
qed


lemma getNextWaitlistEntry_queue:
  "getNextWaitlistEntry s resourceId = Some nxt \<Longrightarrow>
     \<exists>rest. sort_key w_requestedAt (filter (\<lambda>w. w_resourceId w = resourceId) (waitlist s))
              = nxt # rest"
  by (auto simp: getNextWaitlistEntry_def split: list.splits)

text \<open>What a return that reports success has done, with and without a waiting entry.\<close>

lemma returnResource_success_held:
  assumes "snd (returnResource s resourceId userId gid now) = Inr res" and "rt_ok res"
  shows "\<exists>held.
           find (\<lambda>a. a_resourceId a = resourceId \<and> a_userId a = userId \<and> a_status a = Active)
             (assignments s) = Some held"
  using assms
  by (cases "find (\<lambda>a. a_resourceId a = resourceId \<and> a_userId a = userId \<and> a_status a = Active)
       (assignments s)") (auto simp: returnResource_def)

lemma returnResource_promotion:
  assumes ret: "snd (returnResource s resourceId userId gid now) = Inr res"
    and held:
      "find (\<lambda>a. a_resourceId a = resourceId \<and> a_userId a = userId \<and> a_status a = Active)
         (assignments s) = Some held"
    and nxt: "getNextWaitlistEntry s resourceId = Some nxt"
  shows "rt_autoAssigned res = Some (w_userId nxt)
       \<and> waitlist (stateAfter s (fst (returnResource s resourceId userId gid now)))
           = filter (\<lambda>w. w_id w \<noteq> w_id nxt) (waitlist s)
       \<and> assignments (stateAfter s (fst (returnResource s resourceId userId gid now)))
           = map (\<lambda>a. if a_id a = a_id held then a\<lparr>a_status := Returned\<rparr> else a) (assignments s)
             @ [\<lparr>a_id = gid, a_resourceId = resourceId, a_userId = w_userId nxt,
                 a_assignedAt = now, a_dueReturnAt = None, a_status = Active\<rparr>]"
proof -
  from ret nxt held obtain resource where
    resource: "find (\<lambda>r. r_id r = resourceId) (resources s) = Some resource"
    by (cases "find (\<lambda>r. r_id r = resourceId) (resources s)") (auto simp: returnResource_def Let_def)
  from ret nxt held resource obtain notifs where
    stored: "appendNotification (notifications s) (w_userId nxt)
               (r_name resource @ '' is now assigned to you.'') = Inr notifs"
    by (cases "appendNotification (notifications s) (w_userId nxt)
               (r_name resource @ '' is now assigned to you.'')")
       (auto simp: returnResource_def Let_def)
  show ?thesis
    using ret nxt held resource stored by (auto simp: returnResource_def Let_def)
qed

lemma returnResource_release:
  assumes held:
      "find (\<lambda>a. a_resourceId a = resourceId \<and> a_userId a = userId \<and> a_status a = Active)
         (assignments s) = Some held"
    and nobody: "getNextWaitlistEntry s resourceId = None"
  shows "snd (returnResource s resourceId userId gid now) =
           Inr \<lparr>rt_ok = True, rt_message = ''Returned successfully.'', rt_autoAssigned = None\<rparr>
       \<and> stateAfter s (fst (returnResource s resourceId userId gid now)) =
           s\<lparr>assignments :=
               map (\<lambda>a. if a_id a = a_id held then a\<lparr>a_status := Returned\<rparr> else a)
                 (assignments s)\<rparr>"
  using held nobody by (simp add: returnResource_def Let_def)

text \<open>
  C3. A successful return for a resource with waiting entries promotes the head of that
  resource's queue, the entries for the resource in ascending order of request time:
  the promoted entry has the least request time among the entries still waiting for
  the resource, the result names its user, a new active assignment for that user and
  resource is appended after the returned one has been marked, the waitlist loses
  exactly that entry, and the queue left for the next return is the rest of the queue.
  So successive returns serve the entries in ascending order of request time. Waitlist
  identifiers are taken to be unique, as \<^verbatim>\<open>generateId\<close> intends.
\<close>

theorem returnResource_promotes_earliest_waiter:
  assumes ret: "snd (returnResource s resourceId userId gid now) = Inr res"
    and ok: "rt_ok res"
    and waiting: "\<exists>w\<in>set (waitlist s). w_resourceId w = resourceId"
    and ids: "distinct (map w_id (waitlist s))"
  shows "\<exists>nxt\<in>set (waitlist s). \<exists>held\<in>set (assignments s). \<exists>rest.
           w_resourceId nxt = resourceId
         \<and> (\<forall>w\<in>set (waitlist s). w_resourceId w = resourceId
               \<longrightarrow> w_requestedAt nxt \<le> w_requestedAt w)
         \<and> sort_key w_requestedAt (filter (\<lambda>w. w_resourceId w = resourceId) (waitlist s))
             = nxt # rest
         \<and> a_resourceId held = resourceId \<and> a_userId held = userId \<and> a_status held = Active
         \<and> rt_autoAssigned res = Some (w_userId nxt)
         \<and> waitlist (stateAfter s (fst (returnResource s resourceId userId gid now)))
             = remove1 nxt (waitlist s)
         \<and> sort_key w_requestedAt
              (filter (\<lambda>w. w_resourceId w = resourceId)
                 (waitlist (stateAfter s (fst (returnResource s resourceId userId gid now)))))
             = rest
         \<and> assignments (stateAfter s (fst (returnResource s resourceId userId gid now)))
             = map (\<lambda>a. if a_id a = a_id held then a\<lparr>a_status := Returned\<rparr> else a) (assignments s)
               @ [\<lparr>a_id = gid, a_resourceId = resourceId, a_userId = w_userId nxt,
                   a_assignedAt = now, a_dueReturnAt = None, a_status = Active\<rparr>]"
proof -
  from waiting have "getNextWaitlistEntry s resourceId \<noteq> None"
    by (simp add: getNextWaitlistEntry_None)
  then obtain nxt where nxt: "getNextWaitlistEntry s resourceId = Some nxt" by blast
  from getNextWaitlistEntry_queue [OF nxt] obtain rest where
    queue: "sort_key w_requestedAt (filter (\<lambda>w. w_resourceId w = resourceId) (waitlist s))
              = nxt # rest" by blast
  from returnResource_success_held [OF ret ok] obtain held where held:
    "find (\<lambda>a. a_resourceId a = resourceId \<and> a_userId a = userId \<and> a_status a = Active)
       (assignments s) = Some held"
    by blast
  note n = getNextWaitlistEntry_Some [OF nxt]
  note h = find_SomeD [OF held]
  note promoted = returnResource_promotion [OF ret held nxt]
  have wl0: "waitlist (stateAfter s (fst (returnResource s resourceId userId gid now)))
             = filter (\<lambda>w. w_id w \<noteq> w_id nxt) (waitlist s)"
    using promoted by simp
  have rm: "filter (\<lambda>w. w_id w \<noteq> w_id nxt) (waitlist s) = remove1 nxt (waitlist s)"
    using ids n by (intro filter_other_ids_remove1) simp_all
  have auto_assigned: "rt_autoAssigned res = Some (w_userId nxt)"
    using promoted by simp
  have wl: "waitlist (stateAfter s (fst (returnResource s resourceId userId gid now)))
             = remove1 nxt (waitlist s)"
    using wl0 rm by simp
  have queue': "sort_key w_requestedAt
              (filter (\<lambda>w. w_resourceId w = resourceId)
                 (waitlist (stateAfter s (fst (returnResource s resourceId userId gid now)))))
             = rest"
    unfolding wl0 using ids queue by (rule queue_after_removal)
  have asg: "assignments (stateAfter s (fst (returnResource s resourceId userId gid now)))
             = map (\<lambda>a. if a_id a = a_id held then a\<lparr>a_status := Returned\<rparr> else a) (assignments s)
               @ [\<lparr>a_id = gid, a_resourceId = resourceId, a_userId = w_userId nxt,
                   a_assignedAt = now, a_dueReturnAt = None, a_status = Active\<rparr>]"
    using promoted by simp
  show ?thesis
    using n h queue auto_assigned wl queue' asg by blast
qed

theorem returnResource_promotes_earliest_waiter_witness:
  "distinct (map w_id (waitlist carolBeforeBob))
   \<and> map w_userId (waitlist carolBeforeBob) = [''bob'', ''carol'']
   \<and> map w_requestedAt (waitlist carolBeforeBob) = [3000, 2000]
   \<and> snd (returnResource carolBeforeBob ''P1'' ''alice'' ''id4'' 4000) =
       Inr \<lparr>rt_ok = True,
            rt_message = ''Returned. Next in line (carol) was auto-assigned.'',
            rt_autoAssigned = Some ''carol''\<rparr>
   \<and> (\<exists>nxt\<in>set (waitlist carolBeforeBob).
         w_userId nxt = ''carol''
       \<and> waitlist (stateAfter carolBeforeBob
                     (fst (returnResource carolBeforeBob ''P1'' ''alice'' ''id4'' 4000)))
           = remove1 nxt (waitlist carolBeforeBob))"
proof -
  have ret: "snd (returnResource carolBeforeBob ''P1'' ''alice'' ''id4'' 4000) =
       Inr \<lparr>rt_ok = True,
            rt_message = ''Returned. Next in line (carol) was auto-assigned.'',
            rt_autoAssigned = Some ''carol''\<rparr>"
    by (simp add: example_defs)
  have ok: "rt_ok \<lparr>rt_ok = True,
            rt_message = ''Returned. Next in line (carol) was auto-assigned.'',
            rt_autoAssigned = Some ''carol''\<rparr>"
    by simp
  have waiting: "\<exists>w\<in>set (waitlist carolBeforeBob). w_resourceId w = ''P1''"
    by (simp add: example_defs)
  have ids: "distinct (map w_id (waitlist carolBeforeBob))"
    by (simp add: example_defs)
  have users: "map w_userId (waitlist carolBeforeBob) = [''bob'', ''carol'']"
    by (simp add: example_defs)
  have times: "map w_requestedAt (waitlist carolBeforeBob) = [3000, 2000]"
    by (simp add: example_defs)
  from returnResource_promotes_earliest_waiter [OF ret ok waiting ids]
  obtain nxt where "nxt \<in> set (waitlist carolBeforeBob)"
    and "rt_autoAssigned \<lparr>rt_ok = True,
            rt_message = ''Returned. Next in line (carol) was auto-assigned.'',
            rt_autoAssigned = Some ''carol''\<rparr> = Some (w_userId nxt)"
    and "waitlist (stateAfter carolBeforeBob
                     (fst (returnResource carolBeforeBob ''P1'' ''alice'' ''id4'' 4000)))
           = remove1 nxt (waitlist carolBeforeBob)"
    by blast
  then have "\<exists>nxt\<in>set (waitlist carolBeforeBob).
         w_userId nxt = ''carol''
       \<and> waitlist (stateAfter carolBeforeBob
                     (fst (returnResource carolBeforeBob ''P1'' ''alice'' ''id4'' 4000)))
           = remove1 nxt (waitlist carolBeforeBob)"
    by auto
  with ids users times ret show ?thesis by blast
qed

section \<open>No idle unit while somebody waits\<close>

lemma active_after_flip_exact:
  "distinct (map a_id as) \<Longrightarrow> x \<in> set as \<Longrightarrow> a_resourceId x = rid \<Longrightarrow> a_status x = Active \<Longrightarrow>
   Suc (length (filter (\<lambda>a. a_resourceId a = rid \<and> a_status a = Active)
            (map (\<lambda>a. if a_id a = a_id x then a\<lparr>a_status := Returned\<rparr> else a) as)))
     = length (filter (\<lambda>a. a_resourceId a = rid \<and> a_status a = Active) as)"
proof (induction as)
  case Nil
  then show ?case by simp
next
  case (Cons a as)
  show ?case
  proof (cases "a = x")
    case True
    then have "a_id x \<notin> a_id ` set as" using Cons.prems(1) by simp
    then have "\<forall>v\<in>set as. a_id v \<noteq> a_id x" by (metis imageI)
    then have "map (\<lambda>a. if a_id a = a_id x then a\<lparr>a_status := Returned\<rparr> else a) as = as"
      by (simp add: map_idI)
    with True Cons.prems show ?thesis by simp
  next
    case False
    then have x: "x \<in> set as" using Cons.prems(2) by simp
    then have "a_id a \<noteq> a_id x" using Cons.prems(1) by auto
    moreover have "Suc (length (filter (\<lambda>a. a_resourceId a = rid \<and> a_status a = Active)
            (map (\<lambda>a. if a_id a = a_id x then a\<lparr>a_status := Returned\<rparr> else a) as)))
     = length (filter (\<lambda>a. a_resourceId a = rid \<and> a_status a = Active) as)"
      using Cons.IH Cons.prems x by simp
    ultimately show ?thesis by simp
  qed
qed

lemma marks_held_only:
  assumes "distinct (map a_id as)" and "held \<in> set as"
  shows "map (\<lambda>a. if a_id a = a_id held then a\<lparr>a_status := Returned\<rparr> else a) as
       = map (\<lambda>a. if a = held then a\<lparr>a_status := Returned\<rparr> else a) as"
proof (rule map_cong)
  fix a assume "a \<in> set as"
  with assms have "a_id a = a_id held \<longleftrightarrow> a = held"
    by (meson distinct_map inj_on_def)
  then show "(if a_id a = a_id held then a\<lparr>a_status := Returned\<rparr> else a)
           = (if a = held then a\<lparr>a_status := Returned\<rparr> else a)"
    by simp
qed simp

text \<open>
  C4. A successful return releases the caller's active assignment of the resource and
  no other: it is the one assignment marked returned. When an entry is waiting for the
  resource, the same operation gives the freed unit to a waiting user: the result names
  that user, a new active assignment of the resource for that user is appended, the
  user's entry leaves the waitlist, and the number of active assignments of the
  resource is what it was before. When nobody is waiting, nothing else changes, nobody
  is named, and that number is one less. Assignment identifiers are taken to be unique,
  as \<^verbatim>\<open>generateId\<close> intends.
\<close>

theorem returnResource_reassigns_freed_unit:
  assumes ret: "snd (returnResource s resourceId userId gid now) = Inr res"
    and ok: "rt_ok res"
    and ids: "distinct (map a_id (assignments s))"
  shows "\<exists>held\<in>set (assignments s).
           a_resourceId held = resourceId \<and> a_userId held = userId \<and> a_status held = Active
         \<and> ((\<exists>w\<in>set (waitlist s). w_resourceId w = resourceId) \<longrightarrow>
              (\<exists>nxt\<in>set (waitlist s).
                   w_resourceId nxt = resourceId
                 \<and> rt_autoAssigned res = Some (w_userId nxt)
                 \<and> assignments (stateAfter s (fst (returnResource s resourceId userId gid now)))
                     = map (\<lambda>a. if a = held then a\<lparr>a_status := Returned\<rparr> else a) (assignments s)
                       @ [\<lparr>a_id = gid, a_resourceId = resourceId, a_userId = w_userId nxt,
                           a_assignedAt = now, a_dueReturnAt = None, a_status = Active\<rparr>]
                 \<and> waitlist (stateAfter s (fst (returnResource s resourceId userId gid now)))
                     = filter (\<lambda>w. w_id w \<noteq> w_id nxt) (waitlist s)
                 \<and> activeAssignmentCount
                      (stateAfter s (fst (returnResource s resourceId userId gid now))) resourceId
                     = activeAssignmentCount s resourceId))
         \<and> ((\<forall>w\<in>set (waitlist s). w_resourceId w \<noteq> resourceId) \<longrightarrow>
                rt_autoAssigned res = None
              \<and> stateAfter s (fst (returnResource s resourceId userId gid now))
                  = s\<lparr>assignments :=
                        map (\<lambda>a. if a = held then a\<lparr>a_status := Returned\<rparr> else a)
                          (assignments s)\<rparr>
              \<and> activeAssignmentCount
                   (stateAfter s (fst (returnResource s resourceId userId gid now))) resourceId + 1
                  = activeAssignmentCount s resourceId)"
proof -
  from returnResource_success_held [OF ret ok] obtain held where held:
    "find (\<lambda>a. a_resourceId a = resourceId \<and> a_userId a = userId \<and> a_status a = Active)
       (assignments s) = Some held"
    by blast
  note h = find_SomeD [OF held]
  have only: "map (\<lambda>a. if a_id a = a_id held then a\<lparr>a_status := Returned\<rparr> else a) (assignments s)
       = map (\<lambda>a. if a = held then a\<lparr>a_status := Returned\<rparr> else a) (assignments s)"
    using ids h by (intro marks_held_only) simp_all
  have flip: "Suc (length (filter (\<lambda>a. a_resourceId a = resourceId \<and> a_status a = Active)
            (map (\<lambda>a. if a_id a = a_id held then a\<lparr>a_status := Returned\<rparr> else a) (assignments s))))
     = activeAssignmentCount s resourceId"
    unfolding activeAssignmentCount_def using ids h by (intro active_after_flip_exact) simp_all
  have queued: "\<exists>nxt\<in>set (waitlist s).
                   w_resourceId nxt = resourceId
                 \<and> rt_autoAssigned res = Some (w_userId nxt)
                 \<and> assignments (stateAfter s (fst (returnResource s resourceId userId gid now)))
                     = map (\<lambda>a. if a = held then a\<lparr>a_status := Returned\<rparr> else a) (assignments s)
                       @ [\<lparr>a_id = gid, a_resourceId = resourceId, a_userId = w_userId nxt,
                           a_assignedAt = now, a_dueReturnAt = None, a_status = Active\<rparr>]
                 \<and> waitlist (stateAfter s (fst (returnResource s resourceId userId gid now)))
                     = filter (\<lambda>w. w_id w \<noteq> w_id nxt) (waitlist s)
                 \<and> activeAssignmentCount
                      (stateAfter s (fst (returnResource s resourceId userId gid now))) resourceId
                     = activeAssignmentCount s resourceId"
    if "\<exists>w\<in>set (waitlist s). w_resourceId w = resourceId"
  proof -
    from that have "getNextWaitlistEntry s resourceId \<noteq> None"
      by (simp add: getNextWaitlistEntry_None)
    then obtain nxt where nxt: "getNextWaitlistEntry s resourceId = Some nxt" by blast
    note n = getNextWaitlistEntry_Some [OF nxt]
    note promoted = returnResource_promotion [OF ret held nxt]
    have asg: "assignments (stateAfter s (fst (returnResource s resourceId userId gid now)))
             = map (\<lambda>a. if a_id a = a_id held then a\<lparr>a_status := Returned\<rparr> else a) (assignments s)
               @ [\<lparr>a_id = gid, a_resourceId = resourceId, a_userId = w_userId nxt,
                   a_assignedAt = now, a_dueReturnAt = None, a_status = Active\<rparr>]"
      using promoted by simp
    then have "activeAssignmentCount (stateAfter s (fst (returnResource s resourceId userId gid now)))
              resourceId
        = Suc (length (filter (\<lambda>a. a_resourceId a = resourceId \<and> a_status a = Active)
            (map (\<lambda>a. if a_id a = a_id held then a\<lparr>a_status := Returned\<rparr> else a) (assignments s))))"
      by (simp add: activeAssignmentCount_def)
    with flip have count: "activeAssignmentCount
        (stateAfter s (fst (returnResource s resourceId userId gid now))) resourceId
          = activeAssignmentCount s resourceId"
      by simp
    from asg only have asg': "assignments (stateAfter s (fst (returnResource s resourceId userId gid now)))
             = map (\<lambda>a. if a = held then a\<lparr>a_status := Returned\<rparr> else a) (assignments s)
               @ [\<lparr>a_id = gid, a_resourceId = resourceId, a_userId = w_userId nxt,
                   a_assignedAt = now, a_dueReturnAt = None, a_status = Active\<rparr>]"
      by simp
    from n promoted asg' count show ?thesis by blast
  qed
  have released: "rt_autoAssigned res = None
              \<and> stateAfter s (fst (returnResource s resourceId userId gid now))
                  = s\<lparr>assignments :=
                        map (\<lambda>a. if a = held then a\<lparr>a_status := Returned\<rparr> else a)
                          (assignments s)\<rparr>
              \<and> activeAssignmentCount
                   (stateAfter s (fst (returnResource s resourceId userId gid now))) resourceId + 1
                  = activeAssignmentCount s resourceId"
    if "\<forall>w\<in>set (waitlist s). w_resourceId w \<noteq> resourceId"
  proof -
    from that have nobody: "getNextWaitlistEntry s resourceId = None"
      by (simp add: getNextWaitlistEntry_None)
    note rel = returnResource_release [OF held nobody, of gid now]
    from rel ret have none: "rt_autoAssigned res = None" by auto
    from rel only have st: "stateAfter s (fst (returnResource s resourceId userId gid now))
                  = s\<lparr>assignments :=
                        map (\<lambda>a. if a = held then a\<lparr>a_status := Returned\<rparr> else a)
                          (assignments s)\<rparr>"
      by simp
    from rel have "activeAssignmentCount (stateAfter s (fst (returnResource s resourceId userId gid now)))
              resourceId
        = length (filter (\<lambda>a. a_resourceId a = resourceId \<and> a_status a = Active)
            (map (\<lambda>a. if a_id a = a_id held then a\<lparr>a_status := Returned\<rparr> else a) (assignments s)))"
      by (simp add: activeAssignmentCount_def)
    with flip have "activeAssignmentCount
        (stateAfter s (fst (returnResource s resourceId userId gid now))) resourceId + 1
          = activeAssignmentCount s resourceId"
      by simp
    with none st show ?thesis by blast
  qed
  from h queued released show ?thesis by blast
qed

theorem returnResource_reassigns_freed_unit_witness:
  "snd (returnResource bobWaitsForP1 ''P1'' ''alice'' ''id3'' 3000) =
       Inr \<lparr>rt_ok = True,
            rt_message = ''Returned. Next in line (bob) was auto-assigned.'',
            rt_autoAssigned = Some ''bob''\<rparr>
   \<and> assignments
       (stateAfter bobWaitsForP1 (fst (returnResource bobWaitsForP1 ''P1'' ''alice'' ''id3'' 3000)))
       = [\<lparr>a_id = ''id1'', a_resourceId = ''P1'', a_userId = ''alice'', a_assignedAt = 1000, a_dueReturnAt = None, a_status = Returned\<rparr>,
          \<lparr>a_id = ''id3'', a_resourceId = ''P1'', a_userId = ''bob'', a_assignedAt = 3000, a_dueReturnAt = None, a_status = Active\<rparr>]
   \<and> waitlist
       (stateAfter bobWaitsForP1 (fst (returnResource bobWaitsForP1 ''P1'' ''alice'' ''id3'' 3000)))
       = []
   \<and> activeAssignmentCount
       (stateAfter bobWaitsForP1 (fst (returnResource bobWaitsForP1 ''P1'' ''alice'' ''id3'' 3000)))
       ''P1'' = activeAssignmentCount bobWaitsForP1 ''P1''
   \<and> activeAssignmentCount bobWaitsForP1 ''P1'' = 1
   \<and> activeAssignmentCount
       (stateAfter aliceHoldsP1 (fst (returnResource aliceHoldsP1 ''P1'' ''alice'' ''id3'' 3000)))
       ''P1'' + 1 = activeAssignmentCount aliceHoldsP1 ''P1''"
proof -
  have ret1: "snd (returnResource bobWaitsForP1 ''P1'' ''alice'' ''id3'' 3000) =
       Inr \<lparr>rt_ok = True,
            rt_message = ''Returned. Next in line (bob) was auto-assigned.'',
            rt_autoAssigned = Some ''bob''\<rparr>"
    by (simp add: example_defs)
  have ret2: "snd (returnResource aliceHoldsP1 ''P1'' ''alice'' ''id3'' 3000) =
       Inr \<lparr>rt_ok = True, rt_message = ''Returned successfully.'', rt_autoAssigned = None\<rparr>"
    by (simp add: example_defs)
  have ids1: "distinct (map a_id (assignments bobWaitsForP1))"
    by (simp add: example_defs)
  have ids2: "distinct (map a_id (assignments aliceHoldsP1))"
    by (simp add: example_defs)
  have waiting: "\<exists>w\<in>set (waitlist bobWaitsForP1). w_resourceId w = ''P1''"
    by (simp add: example_defs)
  have nobody: "\<forall>w\<in>set (waitlist aliceHoldsP1). w_resourceId w \<noteq> ''P1''"
    by (simp add: example_defs)
  have count: "activeAssignmentCount bobWaitsForP1 ''P1'' = 1"
    by (simp add: example_defs)
  have asg: "assignments
       (stateAfter bobWaitsForP1 (fst (returnResource bobWaitsForP1 ''P1'' ''alice'' ''id3'' 3000)))
       = [\<lparr>a_id = ''id1'', a_resourceId = ''P1'', a_userId = ''alice'', a_assignedAt = 1000, a_dueReturnAt = None, a_status = Returned\<rparr>,
          \<lparr>a_id = ''id3'', a_resourceId = ''P1'', a_userId = ''bob'', a_assignedAt = 3000, a_dueReturnAt = None, a_status = Active\<rparr>]"
    by (simp add: example_defs)
  have wl: "waitlist
       (stateAfter bobWaitsForP1 (fst (returnResource bobWaitsForP1 ''P1'' ''alice'' ''id3'' 3000)))
       = []"
    by (simp add: example_defs)
  from returnResource_reassigns_freed_unit [OF ret1 _ ids1] waiting
  have same: "activeAssignmentCount
      (stateAfter bobWaitsForP1 (fst (returnResource bobWaitsForP1 ''P1'' ''alice'' ''id3'' 3000)))
      ''P1'' = activeAssignmentCount bobWaitsForP1 ''P1''"
    by auto
  from returnResource_reassigns_freed_unit [OF ret2 _ ids2] nobody
  have less: "activeAssignmentCount
      (stateAfter aliceHoldsP1 (fst (returnResource aliceHoldsP1 ''P1'' ''alice'' ''id3'' 3000)))
      ''P1'' + 1 = activeAssignmentCount aliceHoldsP1 ''P1''"
    by auto
  from ret1 asg wl same count less show ?thesis by blast
qed

section \<open>The daily utilization snapshot\<close>

lemma snapshotLoop_extends: "\<exists>new. snapshotLoop s date rs ulog = ulog @ new"
proof (induction rs arbitrary: ulog)
  case Nil
  then show ?case by simp
next
  case (Cons r rs)
  show ?case
  proof (cases "list_ex (\<lambda>e. u_resourceId e = r_id r \<and> u_date e = date) ulog")
    case True
    then show ?thesis using Cons.IH [of ulog] by simp
  next
    case False
    let ?e = "\<lparr>u_resourceId = r_id r, u_date = date,
                u_allocated = int (activeAssignmentCount s (r_id r)), u_total = r_quantity r\<rparr>"
    from Cons.IH [of "ulog @ [?e]"] obtain new
      where "snapshotLoop s date rs (ulog @ [?e]) = (ulog @ [?e]) @ new" by blast
    with False show ?thesis by (simp add: Let_def)
  qed
qed

lemma snapshotLoop_all_logged:
  "\<forall>r\<in>set rs. list_ex (\<lambda>e. u_resourceId e = r_id r \<and> u_date e = date) ulog
    \<Longrightarrow> snapshotLoop s date rs ulog = ulog"
  by (induction rs) simp_all

lemma snapshotLoop_count:
  "length (filter (\<lambda>e. u_resourceId e = rid \<and> u_date e = date) (snapshotLoop s date rs ulog)) =
     (if rid \<in> r_id ` set rs
         \<and> filter (\<lambda>e. u_resourceId e = rid \<and> u_date e = date) ulog = []
      then 1
      else length (filter (\<lambda>e. u_resourceId e = rid \<and> u_date e = date) ulog))"
proof (induction rs arbitrary: ulog)
  case Nil
  then show ?case by simp
next
  case (Cons r rs)
  show ?case
  proof (cases "list_ex (\<lambda>e. u_resourceId e = r_id r \<and> u_date e = date) ulog")
    case True
    then have "filter (\<lambda>e. u_resourceId e = r_id r \<and> u_date e = date) ulog \<noteq> []"
      by (auto simp: list_ex_iff filter_empty_conv)
    with True show ?thesis using Cons.IH [of ulog] by auto
  next
    case False
    then have none: "filter (\<lambda>e. u_resourceId e = r_id r \<and> u_date e = date) ulog = []"
      by (auto simp: list_ex_iff filter_empty_conv)
    show ?thesis
      using False none Cons.IH [of "ulog @ [\<lparr>u_resourceId = r_id r, u_date = date,
                u_allocated = int (activeAssignmentCount s (r_id r)), u_total = r_quantity r\<rparr>]"]
      by (auto simp: Let_def)
  qed
qed

lemma snapshotLoop_count_any_date:
  "length (filter (\<lambda>e. u_resourceId e = rid \<and> u_date e = d) (snapshotLoop s date rs ulog)) =
     (if d = date \<and> rid \<in> r_id ` set rs
         \<and> filter (\<lambda>e. u_resourceId e = rid \<and> u_date e = d) ulog = []
      then 1
      else length (filter (\<lambda>e. u_resourceId e = rid \<and> u_date e = d) ulog))"
proof (cases "d = date")
  case True
  then show ?thesis by (simp add: snapshotLoop_count)
next
  case False
  have "filter (\<lambda>e. u_resourceId e = rid \<and> u_date e = d) (snapshotLoop s date rs ulog)
      = filter (\<lambda>e. u_resourceId e = rid \<and> u_date e = d) ulog"
    using False by (induction rs arbitrary: ulog) (auto simp: Let_def)
  with False show ?thesis by simp
qed

text \<open>
  Only the sweep writes to the log, and it keeps the log free of second entries: every
  state reached from the seeded state has at most one entry per resource and date.
\<close>

lemma requestResource_utilizationLog:
  "utilizationLog (stateAfter s (fst (requestResource s resourceId userId dueReturnAt gid now)))
     = utilizationLog s"
  by (simp add: requestResource_def Let_def split: option.splits)

lemma returnResource_utilizationLog:
  "utilizationLog (stateAfter s (fst (returnResource s resourceId userId gid now)))
     = utilizationLog s"
  by (simp add: returnResource_def Let_def split: option.splits sum.splits)

lemma step_logInvariant:
  assumes "logInvariant s"
  shows "logInvariant (step parseDate s operation)"
proof (cases operation)
  case (CheckReturnReminders now date)
  have "length (filter (\<lambda>e. u_resourceId e = rid \<and> u_date e = d)
          (snapshotLoop s date (resources s) (utilizationLog s))) \<le> 1" for rid d
    using assms unfolding snapshotLoop_count_any_date logInvariant_def by simp
  then show ?thesis
    using CheckReturnReminders assms checkReturnReminders_cases [of s parseDate now date]
    by (auto simp: step_def logInvariant_def)
qed (use assms in \<open>simp_all add: step_def logInvariant_def requestResource_utilizationLog
       returnResource_utilizationLog clearNotifications_def\<close>)

lemma run_logInvariant:
  "logInvariant s \<Longrightarrow> logInvariant (run parseDate s operations)"
proof (induction operations arbitrary: s)
  case Nil
  then show ?case by (simp add: run_def)
next
  case (Cons operation operations)
  from Cons.prems have "logInvariant (step parseDate s operation)"
    by (rule step_logInvariant)
  then have "logInvariant (run parseDate (step parseDate s operation) operations)"
    by (rule Cons.IH)
  then show ?case by (simp add: run_def)
qed

lemma reachable_log_at_most_one_entry:
  "length (filter (\<lambda>e. u_resourceId e = rid \<and> u_date e = d)
             (utilizationLog (run parseDate seededState operations))) \<le> 1"
proof -
  have "logInvariant seededState"
    by (simp add: logInvariant_def seededState_def seedResourcesIfEmpty_def initialState_def)
  then have "logInvariant (run parseDate seededState operations)"
    by (rule run_logInvariant)
  then show ?thesis by (simp add: logInvariant_def)
qed

text \<open>
  A sweep that completes, on a log with at most one entry per resource for the date:
  the log then holds exactly one entry for the date and each resource of the catalog,
  the entries that were there are kept as they were, in front of the new ones, and a
  later sweep on the same date, whether it completes or not and whatever has been
  requested or returned in between (any state with the same catalog and log), leaves
  the log as it is.
\<close>

lemma checkReturnReminders_completed_sweep_once_per_day:
  assumes atmost: "\<forall>r\<in>set (resources s).
        length (filter (\<lambda>e. u_resourceId e = r_id r \<and> u_date e = date) (utilizationLog s)) \<le> 1"
    and completed: "snd (checkReturnReminders parseDate s now date) = Inr ()"
    and s1: "s1 = stateAfter s (fst (checkReturnReminders parseDate s now date))"
    and later: "resources s2 = resources s1" "utilizationLog s2 = utilizationLog s1"
  shows "(\<forall>r\<in>set (resources s1).
            length (filter (\<lambda>e. u_resourceId e = r_id r \<and> u_date e = date) (utilizationLog s1)) = 1)
       \<and> utilizationLog (stateAfter s2 (fst (checkReturnReminders parseDate' s2 now' date)))
           = utilizationLog s1
       \<and> (\<exists>new. utilizationLog s1 = utilizationLog s @ new)"
proof -
  from checkReturnReminders_completed [OF completed]
  have log1: "utilizationLog s1 = snapshotLoop s date (resources s) (utilizationLog s)"
    and res1: "resources s1 = resources s"
    by (auto simp: s1)
  have one: "\<forall>r\<in>set (resources s1).
      length (filter (\<lambda>e. u_resourceId e = r_id r \<and> u_date e = date) (utilizationLog s1)) = 1"
  proof
    fix r assume r: "r \<in> set (resources s1)"
    then have "r \<in> set (resources s)" by (simp add: res1)
    with atmost have le: "length (filter (\<lambda>e. u_resourceId e = r_id r \<and> u_date e = date)
        (utilizationLog s)) \<le> 1" by blast
    have "r_id r \<in> r_id ` set (resources s)" using r res1 by simp
    then show "length (filter (\<lambda>e. u_resourceId e = r_id r \<and> u_date e = date)
        (utilizationLog s1)) = 1"
      using le unfolding log1 snapshotLoop_count
      by (cases "filter (\<lambda>e. u_resourceId e = r_id r \<and> u_date e = date) (utilizationLog s)")
         auto
  qed
  have "\<forall>r\<in>set (resources s2).
      list_ex (\<lambda>e. u_resourceId e = r_id r \<and> u_date e = date) (utilizationLog s2)"
  proof
    fix r assume "r \<in> set (resources s2)"
    then have "length (filter (\<lambda>e. u_resourceId e = r_id r \<and> u_date e = date)
        (utilizationLog s2)) = 1"
      using one later by simp
    then have "filter (\<lambda>e. u_resourceId e = r_id r \<and> u_date e = date) (utilizationLog s2) \<noteq> []"
      by auto
    then show "list_ex (\<lambda>e. u_resourceId e = r_id r \<and> u_date e = date) (utilizationLog s2)"
      by (auto simp: list_ex_iff filter_empty_conv)
  qed
  then have "snapshotLoop s2 date (resources s2) (utilizationLog s2) = utilizationLog s2"
    by (rule snapshotLoop_all_logged)
  then have again: "utilizationLog (stateAfter s2 (fst (checkReturnReminders parseDate' s2 now' date)))
      = utilizationLog s1"
    using checkReturnReminders_cases [of s2 parseDate' now' date] later by auto
  have "\<exists>new. utilizationLog s1 = utilizationLog s @ new"
    unfolding log1 by (rule snapshotLoop_extends)
  with one again show ?thesis by blast
qed

text \<open>
  C7. The sweep should leave exactly one log entry per resource for the date, however
  often it runs on that date. It does not when a user whose name is a member of
  \<^verbatim>\<open>Object.prototype\<close> holds an assignment that is due within the day: with
  \<open>P1\<close> assigned to the user \<^verbatim>\<open>constructor\<close> and due at noon, the sweep of
  that morning throws in \<open>appendNotification\<close>, from the first loop, before the
  snapshot loop and the only \<^verbatim>\<open>setState\<close>. Two sweeps on that date leave the log
  empty, with four resources in the catalog.
\<close>

theorem checkReturnReminders_throws_before_snapshot:
  "checkReturnReminders dueTimes constructorHoldsP1 1767600000000 ''2026-01-05''
     = ([], Inl TypeError)
   \<and> length (resources constructorHoldsP1) = 4
   \<and> utilizationLog
        (run dueTimes constructorHoldsP1
           [CheckReturnReminders 1767600000000 ''2026-01-05'',
            CheckReturnReminders 1767600060000 ''2026-01-05'']) = []"
  by (simp add: example_defs constructorHoldsP1_def dueTimes_def REMINDER_HOURS_AHEAD_def)

section \<open>Utilization figures\<close>

text \<open>
  The division itself: it rounds to the nearest integer multiple of the unit in the
  last place, it is exact where the quotient is a binary64 value, and by zero it gives
  no finite number.
\<close>

lemma roundHalfEven_nearest: "\<bar>of_int (roundHalfEven m) - m\<bar> \<le> 1 / 2"
  unfolding roundHalfEven_def Let_def by (auto simp: abs_if; linarith)

lemma jsDivide_half: "jsDivide 1 2 = Finite (1 / 2)"
  by code_simp

lemma jsDivide_third: "jsDivide 1 3 = Finite (6004799503160661 / 2 ^ 54)"
  by code_simp

lemma jsDivide_by_zero: "jsDivide x 0 \<noteq> Finite q"
  by (simp add: jsDivide_def)

text \<open>
  C8. Every row returned by \<^verbatim>\<open>getUtilization\<close> repeats a stored entry. Its
  utilization is the quotient of allocated by total, as the division of the language
  computes it, when the total is positive. When the total is 0 it is the number 0,
  which is not what the division would give: the test on the total keeps the division
  by zero, with its infinity or \<^verbatim>\<open>NaN\<close>, out of the result. The query has no
  failing branch.
\<close>

theorem getUtilization_ratio:
  "\<forall>row\<in>set (getUtilization s resourceId dateFrom dateTo today).
     (ur_total row > 0 \<longrightarrow> ur_utilization row = jsDivide (ur_allocated row) (ur_total row))
   \<and> (ur_total row = 0 \<longrightarrow>
         ur_utilization row = Finite 0
       \<and> ur_utilization row \<noteq> jsDivide (ur_allocated row) (ur_total row))
   \<and> (\<exists>e\<in>set (utilizationLog s).
         u_resourceId e = ur_resourceId row \<and> u_date e = ur_date row
         \<and> u_allocated e = ur_allocated row \<and> u_total e = ur_total row)"
proof
  fix row assume "row \<in> set (getUtilization s resourceId dateFrom dateTo today)"
  then obtain e where e: "e \<in> set (utilizationLog s)"
    and row: "row = \<lparr>ur_resourceId = u_resourceId e, ur_date = u_date e,
                     ur_allocated = u_allocated e, ur_total = u_total e,
                     ur_utilization =
                       (if u_total e > 0 then jsDivide (u_allocated e) (u_total e)
                        else Finite 0)\<rparr>"
    by (auto simp: getUtilization_def Let_def)
  have positive: "ur_utilization row = jsDivide (ur_allocated row) (ur_total row)"
    if "ur_total row > 0"
    using that row by simp
  have zero: "ur_utilization row = Finite 0
       \<and> ur_utilization row \<noteq> jsDivide (ur_allocated row) (ur_total row)"
    if "ur_total row = 0"
  proof -
    from that row have "ur_utilization row = Finite 0" by simp
    moreover have "jsDivide (ur_allocated row) (ur_total row) \<noteq> Finite 0"
      using that jsDivide_by_zero [of "ur_allocated row" 0] by simp
    ultimately show ?thesis by simp
  qed
  have "\<exists>e\<in>set (utilizationLog s).
         u_resourceId e = ur_resourceId row \<and> u_date e = ur_date row
         \<and> u_allocated e = ur_allocated row \<and> u_total e = ur_total row"
    using e row by auto
  with positive zero
  show "(ur_total row > 0 \<longrightarrow> ur_utilization row = jsDivide (ur_allocated row) (ur_total row))
   \<and> (ur_total row = 0 \<longrightarrow>
         ur_utilization row = Finite 0
       \<and> ur_utilization row \<noteq> jsDivide (ur_allocated row) (ur_total row))
   \<and> (\<exists>e\<in>set (utilizationLog s).
         u_resourceId e = ur_resourceId row \<and> u_date e = ur_date row
         \<and> u_allocated e = ur_allocated row \<and> u_total e = ur_total row)"
    by blast
qed

theorem getUtilization_ratio_witness:
  "map ur_resourceId (getUtilization sampleLogState None None None ''2026-01-05'')
     = [''E1'', ''Z9'', ''L1'']
   \<and> map ur_allocated (getUtilization sampleLogState None None None ''2026-01-05'') = [1, 0, 1]
   \<and> map ur_total (getUtilization sampleLogState None None None ''2026-01-05'') = [2, 0, 3]
   \<and> ur_utilization (getUtilization sampleLogState None None None ''2026-01-05'' ! 0)
       = Finite (1 / 2)
   \<and> ur_utilization (getUtilization sampleLogState None None None ''2026-01-05'' ! 1)
       = Finite 0
   \<and> ur_utilization (getUtilization sampleLogState None None None ''2026-01-05'' ! 2)
       = Finite (6004799503160661 / 2 ^ 54)"
proof -
  let ?rows = "getUtilization sampleLogState None None None ''2026-01-05''"
  have len: "length ?rows = 3"
    by (simp add: getUtilization_def sampleLogState_def initialState_def Let_def)
  have ids: "map ur_resourceId ?rows = [''E1'', ''Z9'', ''L1'']"
    by (simp add: getUtilization_def sampleLogState_def initialState_def Let_def)
  have allocated: "map ur_allocated ?rows = [1, 0, 1]"
    by (simp add: getUtilization_def sampleLogState_def initialState_def Let_def)
  have totals: "map ur_total ?rows = [2, 0, 3]"
    by (simp add: getUtilization_def sampleLogState_def initialState_def Let_def)
  have m0: "?rows ! 0 \<in> set ?rows" and m1: "?rows ! 1 \<in> set ?rows"
    and m2: "?rows ! 2 \<in> set ?rows"
    using len by (simp_all del: One_nat_def)
  have t0: "ur_total (?rows ! 0) = 2" and a0: "ur_allocated (?rows ! 0) = 1"
    and t1: "ur_total (?rows ! 1) = 0"
    and t2: "ur_total (?rows ! 2) = 3" and a2: "ur_allocated (?rows ! 2) = 1"
    by (simp_all add: getUtilization_def sampleLogState_def initialState_def Let_def)
  from getUtilization_ratio [THEN bspec, OF m0] t0 a0
  have u0: "ur_utilization (?rows ! 0) = Finite (1 / 2)"
    by (simp add: jsDivide_half)
  from getUtilization_ratio [THEN bspec, OF m1] t1
  have u1: "ur_utilization (?rows ! 1) = Finite 0"
    by simp
  from getUtilization_ratio [THEN bspec, OF m2] t2 a2
  have u2: "ur_utilization (?rows ! 2) = Finite (6004799503160661 / 2 ^ 54)"
    by (simp add: jsDivide_third)
  from ids allocated totals u0 u1 u2 show ?thesis by blast
qed

end
